theory Spec2Isabelle
  imports Main "HOL-Library.Multiset"
begin

section \<open>The CSV-to-MySQL loader of \<^verbatim>\<open>src/store_data.py\<close>\<close>

text \<open>
  The loader talks to three things outside the repository: the file system
  (\<^verbatim>\<open>os.path.exists\<close>, \<^verbatim>\<open>os.listdir\<close>), the CSV reader
  (\<^verbatim>\<open>pd.read_csv\<close>) and the MySQL driver. Each is a parameter of the model: what it
  answers is not fixed here, only what the loader does with the answer. A run is
  observed through the log entries it writes and the calls it makes on the driver.
\<close>

subsection \<open>Exceptions, log entries, data\<close>

text \<open>
  The exception classes the source names in an \<^verbatim>\<open>except\<close> clause, the
  \<^verbatim>\<open>AttributeError\<close> of a method call on \<^verbatim>\<open>None\<close>, and every other subclass of
  \<^verbatim>\<open>Exception\<close> (\<^verbatim>\<open>PermissionError\<close>, \<^verbatim>\<open>UnicodeDecodeError\<close>, ...).
  \<open>MySQLError\<close> is \<^verbatim>\<open>mysql.connector.Error\<close> with its message.
\<close>

datatype exn =
    FileNotFoundError
  | EmptyDataError
  | ParserError
  | MySQLError string
  | AttributeError
  | OtherException string

datatype level = INFO | WARNING | ERROR

text \<open>One constructor for each \<^verbatim>\<open>logger\<close> call of the source, with the values it formats.\<close>

datatype message =
    Connected
  | ConnectError string
  | TableCreated string
  | CreateError string string
  | DataInserted string
  | InsertError string string
  | ConnectionClosed
  | Loaded string
  | NotFound string
  | EmptyFile string
  | ParseError string
  | FolderMissing string
  | NoFiles string string
  | Found nat string string
  | ListError exn

type_synonym entry = "level \<times> message"

text \<open>
  A \<^verbatim>\<open>DataFrame\<close> as the loader reads it: the header (\<^verbatim>\<open>df.columns\<close>) and the rows in
  file order (\<^verbatim>\<open>df.iterrows()\<close>). The type of a cell is left open: which Python value
  the reader makes of a field is the reader's business.
\<close>

record 'v dataframe =
  columns :: "string list"
  rows :: "'v list list"

subsection \<open>The driver\<close>

text \<open>
  The calls the source makes on a connection and its cursor. \<open>Execute q ps\<close> is
  \<^verbatim>\<open>cursor.execute(q, ps)\<close>.
\<close>

datatype 'v db_call =
    Cursor
  | Execute string "'v list"
  | Commit
  | CursorClose
  | Close

text \<open>
  A connection handle: whether \<^verbatim>\<open>close()\<close> has been called on it, and every call made
  on it so far, failed ones included.
\<close>

record 'v connection =
  is_open :: bool
  history :: "'v db_call list"

text \<open>
  The server and driver: \<open>connect\<close> answers \<^verbatim>\<open>mysql.connector.connect\<close>, \<open>raises\<close>
  says whether a call raises given the calls before it, \<open>alive\<close> whether the link is
  still up.
\<close>

record ('s, 'v) server =
  connect :: "'s \<Rightarrow> exn option"
  raises :: "'v db_call list \<Rightarrow> 'v db_call \<Rightarrow> exn option"
  alive :: "'v db_call list \<Rightarrow> bool"

text \<open>The file system and the CSV reader.\<close>

record 'v files =
  path_exists :: "string \<Rightarrow> bool"
  listdir :: "string \<Rightarrow> exn + string list"
  read_csv :: "string \<Rightarrow> exn + 'v dataframe"

text \<open>
  What a run changes: the manager's \<^verbatim>\<open>self.connection\<close> (\<open>None\<close> after a failed
  connect) and the log.
\<close>

record 'v world =
  connection :: "'v connection option"
  log :: "entry list"

definition logger :: "level \<Rightarrow> message \<Rightarrow> 'v world \<Rightarrow> 'v world" where
  "logger l m w = w\<lparr>log := log w @ [(l, m)]\<rparr>"

text \<open>
  One call on the driver: it is recorded, and it either raises or returns.
\<close>

definition call :: "('s, 'v) server \<Rightarrow> 'v db_call \<Rightarrow> 'v connection \<Rightarrow> 'v connection \<times> exn option" where
  "call srv c k = (k\<lparr>history := history k @ [c]\<rparr>, raises srv (history k) c)"

definition is_connected :: "('s, 'v) server \<Rightarrow> 'v connection \<Rightarrow> bool" where
  "is_connected srv k = (is_open k \<and> alive srv (history k))"

definition set_connection :: "'v connection \<Rightarrow> 'v world \<Rightarrow> 'v world" where
  "set_connection k w = w\<lparr>connection := Some k\<rparr>"

subsection \<open>Python's string and path operations\<close>

text \<open>\<^verbatim>\<open>sep.join(xs)\<close>.\<close>

fun join :: "string \<Rightarrow> string list \<Rightarrow> string" where
  "join sep [] = []"
| "join sep [x] = x"
| "join sep (x # y # ys) = x @ sep @ join sep (y # ys)"

text \<open>\<^verbatim>\<open>f.endswith(e)\<close>.\<close>

definition endswith :: "string \<Rightarrow> string \<Rightarrow> bool" where
  "endswith f e = (length e \<le> length f \<and> drop (length f - length e) f = e)"

text \<open>\<^verbatim>\<open>s.split(d)\<close> for a one-character separator.\<close>

fun split_on :: "char \<Rightarrow> string \<Rightarrow> string list" where
  "split_on d [] = [[]]"
| "split_on d (c # cs) =
     (if c = d then [] # split_on d cs
      else (case split_on d cs of [] \<Rightarrow> [[c]] | w # ws \<Rightarrow> (c # w) # ws))"

text \<open>\<^verbatim>\<open>os.path.join(a, b)\<close> of \<^verbatim>\<open>posixpath\<close>.\<close>

definition path_join :: "string \<Rightarrow> string \<Rightarrow> string" where
  "path_join a b =
     (if b \<noteq> [] \<and> hd b = CHR ''/'' then b
      else if a = [] \<or> last a = CHR ''/'' then a @ b
      else a @ ''/'' @ b)"

text \<open>
  \<^verbatim>\<open>PurePosixPath(p).name\<close>: the last component, empty components and \<^verbatim>\<open>.\<close> dropped.
\<close>

definition path_name :: "string \<Rightarrow> string" where
  "path_name p =
     (case filter (\<lambda>c. c \<noteq> [] \<and> c \<noteq> ''.'') (split_on CHR ''/'' p) of
        [] \<Rightarrow> []
      | c # cs \<Rightarrow> last (c # cs))"

text \<open>
  \<^verbatim>\<open>name.rfind('.')\<close> and \<^verbatim>\<open>PurePath.stem\<close> (Python up to 3.13): the name up to its last
  dot, when that dot is neither the first nor the last character.
\<close>

definition rfind_dot :: "string \<Rightarrow> nat option" where
  "rfind_dot name =
     (if CHR ''.'' \<in> set name
      then Some (length name - 1 - length (takeWhile (\<lambda>c. c \<noteq> CHR ''.'') (rev name)))
      else None)"

definition stem_of_name :: "string \<Rightarrow> string" where
  "stem_of_name name =
     (case rfind_dot name of
        None \<Rightarrow> name
      | Some i \<Rightarrow> if 0 < i \<and> i + 1 < length name then take i name else name)"

definition stem :: "string \<Rightarrow> string" where
  "stem p = stem_of_name (path_name p)"

text \<open>\<^verbatim>\<open>s[:-8]\<close>: all but the last eight characters, nothing when there are fewer.\<close>

definition strip8 :: "string \<Rightarrow> string" where
  "strip8 s = take (length s - 8) s"

subsection \<open>\<^verbatim>\<open>MySQLDatabaseManager\<close>\<close>

text \<open>
  \<^verbatim>\<open>__init__\<close>: \<^verbatim>\<open>except Error\<close> catches the driver's own error class only; anything else
  leaves the constructor.
\<close>

definition init_manager :: "('s, 'v) server \<Rightarrow> 's \<Rightarrow> 'v world \<Rightarrow> exn + 'v world" where
  "init_manager srv settings w =
     (case connect srv settings of
        None \<Rightarrow>
          (let k = \<lparr>is_open = True, history = []\<rparr>;
               w1 = set_connection k w
           in Inr (if is_connected srv k then logger INFO Connected w1 else w1))
      | Some (MySQLError e) \<Rightarrow> Inr ((logger ERROR (ConnectError e) w)\<lparr>connection := None\<rparr>)
      | Some x \<Rightarrow> Inl x)"

text \<open>
  The handler of \<^verbatim>\<open>create_table\<close> and \<^verbatim>\<open>insert_data\<close>: a \<^verbatim>\<open>mysql.connector.Error\<close> is
  logged and the method returns, any other exception propagates.
\<close>

definition handle :: "(string \<Rightarrow> message) \<Rightarrow> exn \<Rightarrow> 'v world \<Rightarrow> exn + 'v world" where
  "handle msg x w = (case x of MySQLError e \<Rightarrow> Inr (logger ERROR (msg e) w) | _ \<Rightarrow> Inl x)"

definition create_table_query :: "string \<Rightarrow> string \<Rightarrow> string" where
  "create_table_query table_name cols =
     ''CREATE TABLE IF NOT EXISTS '' @ table_name @ '' ('' @ cols @ '');''"

definition create_table :: "('s, 'v) server \<Rightarrow> string \<Rightarrow> string \<Rightarrow> 'v world \<Rightarrow> exn + 'v world" where
  "create_table srv table_name cols w =
     (case connection w of
        None \<Rightarrow> Inl AttributeError
      | Some k0 \<Rightarrow>
          (case call srv Cursor k0 of
             (k1, Some x) \<Rightarrow> handle (CreateError table_name) x (set_connection k1 w)
           | (k1, None) \<Rightarrow>
          (case call srv (Execute (create_table_query table_name cols) []) k1 of
             (k2, Some x) \<Rightarrow> handle (CreateError table_name) x (set_connection k2 w)
           | (k2, None) \<Rightarrow>
          (case call srv CursorClose k2 of
             (k3, Some x) \<Rightarrow> handle (CreateError table_name) x (set_connection k3 w)
           | (k3, None) \<Rightarrow> Inr (logger INFO (TableCreated table_name) (set_connection k3 w))))))"

definition insert_query :: "string \<Rightarrow> nat \<Rightarrow> string" where
  "insert_query table_name n =
     ''INSERT INTO '' @ table_name @ '' VALUES ('' @ join '', '' (replicate n ''%s'') @ '')''"

text \<open>
  The \<^verbatim>\<open>for\<close> loop of \<^verbatim>\<open>insert_data\<close>: one \<^verbatim>\<open>execute\<close> for each row, stopping at the
  first that raises.
\<close>

fun execute_rows :: "('s, 'v) server \<Rightarrow> string \<Rightarrow> 'v list list \<Rightarrow> 'v connection \<Rightarrow> 'v connection \<times> exn option" where
  "execute_rows srv q [] k = (k, None)"
| "execute_rows srv q (r # rs) k =
     (case call srv (Execute q r) k of
        (k1, Some x) \<Rightarrow> (k1, Some x)
      | (k1, None) \<Rightarrow> execute_rows srv q rs k1)"

definition insert_data :: "('s, 'v) server \<Rightarrow> string \<Rightarrow> 'v dataframe \<Rightarrow> 'v world \<Rightarrow> exn + 'v world" where
  "insert_data srv table_name data w =
     (let q = insert_query table_name (length (columns data)) in
      case connection w of
        None \<Rightarrow> Inl AttributeError
      | Some k0 \<Rightarrow>
          (case call srv Cursor k0 of
             (k1, Some x) \<Rightarrow> handle (InsertError table_name) x (set_connection k1 w)
           | (k1, None) \<Rightarrow>
          (case execute_rows srv q (rows data) k1 of
             (k2, Some x) \<Rightarrow> handle (InsertError table_name) x (set_connection k2 w)
           | (k2, None) \<Rightarrow>
          (case call srv Commit k2 of
             (k3, Some x) \<Rightarrow> handle (InsertError table_name) x (set_connection k3 w)
           | (k3, None) \<Rightarrow>
          (case call srv CursorClose k3 of
             (k4, Some x) \<Rightarrow> handle (InsertError table_name) x (set_connection k4 w)
           | (k4, None) \<Rightarrow> Inr (logger INFO (DataInserted table_name) (set_connection k4 w)))))))"

text \<open>
  \<^verbatim>\<open>close\<close>: \<^verbatim>\<open>self.connection and self.connection.is_connected()\<close> guards the driver's
  \<^verbatim>\<open>close()\<close>, and nothing is caught.
\<close>

definition close :: "('s, 'v) server \<Rightarrow> 'v world \<Rightarrow> exn + 'v world" where
  "close srv w =
     (case connection w of
        None \<Rightarrow> Inr w
      | Some k \<Rightarrow>
          if is_connected srv k then
            (case call srv Close k of
               (k1, Some x) \<Rightarrow> Inl x
             | (k1, None) \<Rightarrow> Inr (logger INFO ConnectionClosed (set_connection (k1\<lparr>is_open := False\<rparr>) w)))
          else Inr w)"

subsection \<open>\<^verbatim>\<open>CSVToMySQLLoader\<close>\<close>

definition load_csv :: "'v files \<Rightarrow> string \<Rightarrow> 'v world \<Rightarrow> exn + ('v dataframe option \<times> 'v world)" where
  "load_csv fs file_path w =
     (case read_csv fs file_path of
        Inr df \<Rightarrow> Inr (Some df, logger INFO (Loaded file_path) w)
      | Inl FileNotFoundError \<Rightarrow> Inr (None, logger ERROR (NotFound file_path) w)
      | Inl EmptyDataError \<Rightarrow> Inr (None, logger ERROR (EmptyFile file_path) w)
      | Inl ParserError \<Rightarrow> Inr (None, logger ERROR (ParseError file_path) w)
      | Inl x \<Rightarrow> Inl x)"

definition generate_columns_definition :: "'v dataframe \<Rightarrow> string" where
  "generate_columns_definition df = join '', '' (map (\<lambda>col. col @ '' VARCHAR(255)'') (columns df))"

text \<open>The table name of line 94, \<^verbatim>\<open>Path(csv_file).stem[:-8]\<close>.\<close>

definition table_name_of :: "string \<Rightarrow> string" where
  "table_name_of csv_file = strip8 (stem csv_file)"

fun load_csv_to_db :: "('s, 'v) server \<Rightarrow> 'v files \<Rightarrow> string list \<Rightarrow> 'v world \<Rightarrow> exn + 'v world" where
  "load_csv_to_db srv fs [] w = Inr w"
| "load_csv_to_db srv fs (csv_file # rest) w =
     (let table_name = table_name_of csv_file in
      case load_csv fs csv_file w of
        Inl x \<Rightarrow> Inl x
      | Inr (None, w1) \<Rightarrow> load_csv_to_db srv fs rest w1
      | Inr (Some df, w1) \<Rightarrow>
          (case create_table srv table_name (generate_columns_definition df) w1 of
             Inl x \<Rightarrow> Inl x
           | Inr w2 \<Rightarrow>
               (case insert_data srv table_name df w2 of
                  Inl x \<Rightarrow> Inl x
                | Inr w3 \<Rightarrow> load_csv_to_db srv fs rest w3)))"

subsection \<open>\<^verbatim>\<open>get_files\<close> and \<^verbatim>\<open>main\<close>\<close>

text \<open>The body of the \<^verbatim>\<open>try\<close> of \<^verbatim>\<open>get_files\<close>.\<close>

definition get_files_body :: "'v files \<Rightarrow> string \<Rightarrow> string \<Rightarrow> 'v world \<Rightarrow> exn + (string list \<times> 'v world)" where
  "get_files_body fs folder_path file_extension w =
     (if \<not> path_exists fs folder_path then Inr ([], logger ERROR (FolderMissing folder_path) w)
      else
        (case listdir fs folder_path of
           Inl x \<Rightarrow> Inl x
         | Inr entries \<Rightarrow>
             (let fnames = filter (\<lambda>f. endswith f file_extension) entries;
                  full_paths = map (path_join folder_path) fnames
              in Inr (full_paths,
                      if full_paths = [] then logger WARNING (NoFiles file_extension folder_path) w
                      else logger INFO (Found (length full_paths) file_extension folder_path) w))))"

text \<open>\<^verbatim>\<open>except Exception\<close>: every exception of the body is logged and gives \<^verbatim>\<open>[]\<close>.\<close>

definition get_files :: "'v files \<Rightarrow> string \<Rightarrow> string \<Rightarrow> 'v world \<Rightarrow> exn + (string list \<times> 'v world)" where
  "get_files fs folder_path file_extension w =
     (case get_files_body fs folder_path file_extension w of
        Inl x \<Rightarrow> Inr ([], logger ERROR (ListError x) w)
      | Inr r \<Rightarrow> Inr r)"

text \<open>
  \<^verbatim>\<open>main\<close>, with the directory of \<^verbatim>\<open>src.config\<close> and the connection settings as
  arguments.
\<close>

definition main :: "('s, 'v) server \<Rightarrow> 'v files \<Rightarrow> 's \<Rightarrow> string \<Rightarrow> 'v world \<Rightarrow> exn + 'v world" where
  "main srv fs settings external_data_dir w =
     (case get_files fs external_data_dir ''csv'' w of
        Inl x \<Rightarrow> Inl x
      | Inr (csv_files, w1) \<Rightarrow>
          (case init_manager srv settings w1 of
             Inl x \<Rightarrow> Inl x
           | Inr w2 \<Rightarrow>
               (case connection w2 of
                  None \<Rightarrow> Inr w2
                | Some k \<Rightarrow>
                    (case load_csv_to_db srv fs csv_files w2 of
                       Inl x \<Rightarrow> Inl x
                     | Inr w3 \<Rightarrow> close srv w3))))"

section \<open>What the specification says, in the terms of the model\<close>

subsection \<open>The driver's answers\<close>

text \<open>
  The source catches \<^verbatim>\<open>mysql.connector.Error\<close> and nothing else. A driver that reports
  every failure of a call through that class:
\<close>

definition reports_db_errors_only :: "('s, 'v) server \<Rightarrow> bool" where
  "reports_db_errors_only srv = (\<forall>h c x. raises srv h c = Some x \<longrightarrow> (\<exists>e. x = MySQLError e))"

text \<open>
  A method of the manager as the specification describes it: a fixed list of calls, made
  in order up to the first that raises.
\<close>

fun run_calls :: "('s, 'v) server \<Rightarrow> 'v db_call list \<Rightarrow> 'v connection \<Rightarrow> 'v connection \<times> exn option" where
  "run_calls srv [] k = (k, None)"
| "run_calls srv (c # cs) k =
     (case call srv c k of
        (k1, Some x) \<Rightarrow> (k1, Some x)
      | (k1, None) \<Rightarrow> run_calls srv cs k1)"

text \<open>
  The calls of \<^verbatim>\<open>create_table\<close>, and those of \<^verbatim>\<open>insert_data\<close>: one statement for each
  row in file order, then the commit.
\<close>

definition create_plan :: "string \<Rightarrow> string \<Rightarrow> 'v db_call list" where
  "create_plan n cols = [Cursor, Execute (create_table_query n cols) [], CursorClose]"

definition insert_plan :: "string \<Rightarrow> 'v dataframe \<Rightarrow> 'v db_call list" where
  "insert_plan n df =
     Cursor # map (Execute (insert_query n (length (columns df)))) (rows df) @ [Commit, CursorClose]"

text \<open>
  How such a method ends: the success message, or the handler of the source.
\<close>

definition finish :: "message \<Rightarrow> (string \<Rightarrow> message) \<Rightarrow> 'v world \<Rightarrow> 'v connection \<times> exn option \<Rightarrow> exn + 'v world" where
  "finish ok err w r =
     (case r of
        (k, None) \<Rightarrow> Inr (logger INFO ok (set_connection k w))
      | (k, Some x) \<Rightarrow> handle err x (set_connection k w))"

subsection \<open>What one file leaves in the log\<close>

text \<open>
  The read failures \<^verbatim>\<open>load_csv\<close> turns into \<^verbatim>\<open>None\<close>.
\<close>

definition handled :: "exn + 'v dataframe \<Rightarrow> bool" where
  "handled r = (case r of Inr df \<Rightarrow> True
                | Inl x \<Rightarrow> x = FileNotFoundError \<or> x = EmptyDataError \<or> x = ParserError)"

fun is_create_entry :: "string \<Rightarrow> entry \<Rightarrow> bool" where
  "is_create_entry n (INFO, TableCreated n') = (n' = n)"
| "is_create_entry n (ERROR, CreateError n' e) = (n' = n)"
| "is_create_entry n _ = False"

fun is_insert_entry :: "string \<Rightarrow> entry \<Rightarrow> bool" where
  "is_insert_entry n (INFO, DataInserted n') = (n' = n)"
| "is_insert_entry n (ERROR, InsertError n' e) = (n' = n)"
| "is_insert_entry n _ = False"

fun is_skip_entry :: "entry \<Rightarrow> bool" where
  "is_skip_entry (l, NotFound p) = True"
| "is_skip_entry (l, EmptyFile p) = True"
| "is_skip_entry (l, ParseError p) = True"
| "is_skip_entry (l, m) = False"

text \<open>
  The entries of one file: a parsed file is loaded, then its table is created or the
  creation fails, then its rows are inserted or the insertion fails; a file that cannot
  be read leaves its one skip entry.
\<close>

definition file_entries :: "'v files \<Rightarrow> string \<Rightarrow> entry list \<Rightarrow> bool" where
  "file_entries fs f es =
     (case read_csv fs f of
        Inr df \<Rightarrow>
          (case es of
             [a, b, c] \<Rightarrow> a = (INFO, Loaded f) \<and> is_create_entry (table_name_of f) b
                          \<and> is_insert_entry (table_name_of f) c
           | _ \<Rightarrow> False)
      | Inl FileNotFoundError \<Rightarrow> es = [(ERROR, NotFound f)]
      | Inl EmptyDataError \<Rightarrow> es = [(ERROR, EmptyFile f)]
      | Inl ParserError \<Rightarrow> es = [(ERROR, ParseError f)]
      | Inl _ \<Rightarrow> False)"


definition file_log :: "'v files \<Rightarrow> string \<Rightarrow> entry list" where
  "file_log fs f =
     (case read_csv fs f of
        Inr df \<Rightarrow> [(INFO, Loaded f), (INFO, TableCreated (table_name_of f)),
                   (INFO, DataInserted (table_name_of f))]
      | Inl FileNotFoundError \<Rightarrow> [(ERROR, NotFound f)]
      | Inl EmptyDataError \<Rightarrow> [(ERROR, EmptyFile f)]
      | Inl ParserError \<Rightarrow> [(ERROR, ParseError f)]
      | Inl _ \<Rightarrow> [])"

text \<open>
  The table names a log mentions in its creation entries, in order.
\<close>

fun entry_table :: "entry \<Rightarrow> string list" where
  "entry_table (l, TableCreated n) = [n]"
| "entry_table (l, CreateError n e) = [n]"
| "entry_table (l, m) = []"

definition named_tables :: "entry list \<Rightarrow> string list" where
  "named_tables es = concat (map entry_table es)"

subsection \<open>Reading a column definition back\<close>



subsection \<open>Concrete servers, files and frames\<close>

definition quiet_server :: "(unit, string) server" where
  "quiet_server = \<lparr>connect = (\<lambda>s. None), raises = (\<lambda>h c. None), alive = (\<lambda>h. True)\<rparr>"

definition refusing_server :: "(unit, string) server" where
  "refusing_server =
     \<lparr>connect = (\<lambda>s. Some (MySQLError ''access denied'')),
      raises = (\<lambda>h c. case c of Execute q ps \<Rightarrow> Some (MySQLError ''syntax error'') | _ \<Rightarrow> None),
      alive = (\<lambda>h. True)\<rparr>"

definition fresh_connection :: "string connection" where
  "fresh_connection = \<lparr>is_open = True, history = []\<rparr>"

definition open_world :: "string world" where
  "open_world = \<lparr>connection = Some fresh_connection, log = []\<rparr>"

definition orders_frame :: "string dataframe" where
  "orders_frame = \<lparr>columns = [''id'', ''amount''], rows = [[''1'', ''10.50''], [''2'', ''20.00'']]\<rparr>"

definition scenario_files :: "string files" where
  "scenario_files =
     \<lparr>path_exists = (\<lambda>p. True),
      listdir = (\<lambda>p. Inr [''orders_202401.csv'', ''users_202401.csv'']),
      read_csv = (\<lambda>p. if p = ''orders_202401.csv'' then Inr orders_frame
                        else if p = ''users_202401.csv'' then Inl EmptyDataError
                        else Inl FileNotFoundError)\<rparr>"

definition dotless_listing :: "string files" where
  "dotless_listing =
     \<lparr>path_exists = (\<lambda>p. True),
      listdir = (\<lambda>p. Inr [''abccsv'', ''a.csv'', ''b.txt'']),
      read_csv = (\<lambda>p. Inl FileNotFoundError)\<rparr>"

section \<open>The methods of the manager\<close>

lemma run_calls_append:
  "run_calls srv (as @ bs) k =
     (case run_calls srv as k of (k1, Some x) \<Rightarrow> (k1, Some x) | (k1, None) \<Rightarrow> run_calls srv bs k1)"
  by (induction as arbitrary: k) (auto split: prod.splits option.splits)

lemma execute_rows_run: "execute_rows srv q rs k = run_calls srv (map (Execute q) rs) k"
  by (induction rs arbitrary: k) (auto split: prod.splits option.splits)

lemma create_table_run:
  "connection w = Some k \<Longrightarrow>
   create_table srv n cols w =
     finish (TableCreated n) (CreateError n) w (run_calls srv (create_plan n cols) k)"
  by (simp add: create_table_def create_plan_def finish_def split: prod.splits option.splits)

lemma insert_data_run:
  "connection w = Some k \<Longrightarrow>
   insert_data srv n df w =
     finish (DataInserted n) (InsertError n) w (run_calls srv (insert_plan n df) k)"
  unfolding insert_data_def insert_plan_def finish_def Let_def
  by (simp add: execute_rows_run run_calls_append split: prod.splits option.splits)

lemma run_calls_shape:
  "\<exists>j \<le> length cs.
     fst (run_calls srv cs k) = k\<lparr>history := history k @ take j cs\<rparr> \<and>
     (case snd (run_calls srv cs k) of
        None \<Rightarrow> j = length cs \<and> (\<forall>i < length cs. raises srv (history k @ take i cs) (cs ! i) = None)
      | Some x \<Rightarrow> 0 < j \<and> raises srv (history k @ take (j - 1) cs) (cs ! (j - 1)) = Some x
                  \<and> (\<forall>i < j - 1. raises srv (history k @ take i cs) (cs ! i) = None))"
proof (induction cs arbitrary: k)
  case Nil
  then show ?case by simp
next
  case (Cons c cs)
  show ?case
  proof (cases "raises srv (history k) c")
    case (Some x)
    then have "run_calls srv (c # cs) k = (k\<lparr>history := history k @ [c]\<rparr>, Some x)"
      by (simp add: call_def)
    then show ?thesis using Some
      by (intro exI[of _ 1]) simp
  next
    case None
    let ?k1 = "k\<lparr>history := history k @ [c]\<rparr>"
    from None have step: "run_calls srv (c # cs) k = run_calls srv cs ?k1"
      by (simp add: call_def)
    from Cons.IH[of ?k1] obtain j where j: "j \<le> length cs"
      "fst (run_calls srv cs ?k1) = ?k1\<lparr>history := history ?k1 @ take j cs\<rparr>"
      "(case snd (run_calls srv cs ?k1) of
        None \<Rightarrow> j = length cs \<and> (\<forall>i < length cs. raises srv (history ?k1 @ take i cs) (cs ! i) = None)
      | Some x \<Rightarrow> 0 < j \<and> raises srv (history ?k1 @ take (j - 1) cs) (cs ! (j - 1)) = Some x
                  \<and> (\<forall>i < j - 1. raises srv (history ?k1 @ take i cs) (cs ! i) = None))"
      by blast
    show ?thesis
    proof (intro exI[of _ "Suc j"] conjI)
      show "Suc j \<le> length (c # cs)" using j(1) by simp
      show "fst (run_calls srv (c # cs) k) = k\<lparr>history := history k @ take (Suc j) (c # cs)\<rparr>"
        using j(2) step by simp
      show "case snd (run_calls srv (c # cs) k) of
        None \<Rightarrow> Suc j = length (c # cs) \<and> (\<forall>i < length (c # cs). raises srv (history k @ take i (c # cs)) ((c # cs) ! i) = None)
      | Some x \<Rightarrow> 0 < Suc j \<and> raises srv (history k @ take (Suc j - 1) (c # cs)) ((c # cs) ! (Suc j - 1)) = Some x
                  \<and> (\<forall>i < Suc j - 1. raises srv (history k @ take i (c # cs)) ((c # cs) ! i) = None)"
      proof (cases "snd (run_calls srv cs ?k1)")
        case N: None
        with j(3) have a: "j = length cs" "\<forall>i < length cs. raises srv (history ?k1 @ take i cs) (cs ! i) = None"
          by auto
        have "\<forall>i < length (c # cs). raises srv (history k @ take i (c # cs)) ((c # cs) ! i) = None"
        proof (intro allI impI)
          fix i assume "i < length (c # cs)"
          then show "raises srv (history k @ take i (c # cs)) ((c # cs) ! i) = None"
            using a(2) None by (cases i) auto
        qed
        then show ?thesis using N a(1) step by simp
      next
        case S: (Some x)
        with j(3) have a: "0 < j" "raises srv (history ?k1 @ take (j - 1) cs) (cs ! (j - 1)) = Some x"
          "\<forall>i < j - 1. raises srv (history ?k1 @ take i cs) (cs ! i) = None"
          by auto
        from a(1) obtain j' where j': "j = Suc j'" by (cases j) auto
        have "\<forall>i < j. raises srv (history k @ take i (c # cs)) ((c # cs) ! i) = None"
        proof (intro allI impI)
          fix i assume "i < j"
          then show "raises srv (history k @ take i (c # cs)) ((c # cs) ! i) = None"
            using a(3) None j' by (cases i) auto
        qed
        then show ?thesis using S a(2) step j' by simp
      qed
    qed
  qed
qed

lemma planned_outcome:
  assumes db: "reports_db_errors_only srv"
  shows "\<exists>j m. j \<le> length cs \<and>
      finish ok err w (run_calls srv cs k) =
        Inr (w\<lparr>connection := Some (k\<lparr>history := history k @ take j cs\<rparr>), log := log w @ [m]\<rparr>) \<and>
      ((m = (INFO, ok) \<and> j = length cs \<and>
          (\<forall>i < length cs. raises srv (history k @ take i cs) (cs ! i) = None)) \<or>
       (\<exists>e. m = (ERROR, err e) \<and> 0 < j \<and>
          raises srv (history k @ take (j - 1) cs) (cs ! (j - 1)) = Some (MySQLError e) \<and>
          (\<forall>i < j - 1. raises srv (history k @ take i cs) (cs ! i) = None)))"
proof -
  obtain k' r where r: "run_calls srv cs k = (k', r)" by (cases "run_calls srv cs k")
  from run_calls_shape[of cs srv k] r obtain j where j: "j \<le> length cs"
    "k' = k\<lparr>history := history k @ take j cs\<rparr>"
    "(case r of
        None \<Rightarrow> j = length cs \<and> (\<forall>i < length cs. raises srv (history k @ take i cs) (cs ! i) = None)
      | Some x \<Rightarrow> 0 < j \<and> raises srv (history k @ take (j - 1) cs) (cs ! (j - 1)) = Some x
                  \<and> (\<forall>i < j - 1. raises srv (history k @ take i cs) (cs ! i) = None))"
    by auto
  show ?thesis
  proof (cases r)
    case None
    with j r show ?thesis
      by (intro exI[of _ j] exI[of _ "(INFO, ok)"])
         (simp add: finish_def logger_def set_connection_def)
  next
    case (Some x)
    with j(3) have x: "0 < j" "raises srv (history k @ take (j - 1) cs) (cs ! (j - 1)) = Some x"
      "\<forall>i < j - 1. raises srv (history k @ take i cs) (cs ! i) = None" by auto
    from db x(2) obtain e where e: "x = MySQLError e"
      unfolding reports_db_errors_only_def by blast
    with j r Some x show ?thesis
      by (intro exI[of _ j] exI[of _ "(ERROR, err e)"])
         (simp add: finish_def handle_def logger_def set_connection_def)
  qed
qed

lemma planned_entry:
  assumes db: "reports_db_errors_only srv" and ok: "P (INFO, ok)" and er: "\<And>e. P (ERROR, err e)"
  shows "\<exists>j m. finish ok err w (run_calls srv cs k) =
        Inr (w\<lparr>connection := Some (k\<lparr>history := history k @ take j cs\<rparr>), log := log w @ [m]\<rparr>)
        \<and> P m"
proof -
  from planned_outcome[OF db, of cs ok err w k] obtain j m where
    f: "finish ok err w (run_calls srv cs k) =
        Inr (w\<lparr>connection := Some (k\<lparr>history := history k @ take j cs\<rparr>), log := log w @ [m]\<rparr>)"
    and m: "m = (INFO, ok) \<or> (\<exists>e. m = (ERROR, err e))"
    by blast
  from m ok er have "P m" by blast
  with f show ?thesis by blast
qed

lemma commit_position:
  assumes "Commit \<in> set (take j (insert_plan n df))"
  shows "length (rows df) + 2 \<le> j"
proof (rule ccontr)
  assume "\<not> length (rows df) + 2 \<le> j"
  then have "j \<le> length (Cursor # map (Execute (insert_query n (length (columns df)))) (rows df))"
    by simp
  then have "take j (insert_plan n df) =
      take j (Cursor # map (Execute (insert_query n (length (columns df)))) (rows df))"
    unfolding insert_plan_def by (metis append_Cons take_all_iff take_append take_take min.absorb1 append.right_neutral take_0 diff_is_0_eq)
  with assms have "Commit \<in> set (Cursor # map (Execute (insert_query n (length (columns df)))) (rows df))"
    by (metis in_set_takeD)
  then show False by auto
qed

lemma insert_plan_length: "length (insert_plan n df) = length (rows df) + 3"
  by (simp add: insert_plan_def)



lemma insert_data_outcome:
  assumes conn: "connection w = Some k" and db: "reports_db_errors_only srv"
  shows "\<exists>j m. insert_data srv n df w =
        Inr (w\<lparr>connection := Some (k\<lparr>history := history k @ take j (insert_plan n df)\<rparr>),
               log := log w @ [m]\<rparr>) \<and> is_insert_entry n m"
  unfolding insert_data_run[OF conn]
  by (rule planned_entry[OF db]) simp_all

lemma create_table_entry:
  assumes conn: "connection w = Some k" and db: "reports_db_errors_only srv"
  shows "\<exists>j m. create_table srv n cols w =
        Inr (w\<lparr>connection := Some (k\<lparr>history := history k @ take j (create_plan n cols)\<rparr>),
               log := log w @ [m]\<rparr>) \<and> is_create_entry n m"
  unfolding create_table_run[OF conn]
  by (rule planned_entry[OF db]) simp_all





lemma quiet_reports: "reports_db_errors_only quiet_server"
  by (simp add: reports_db_errors_only_def quiet_server_def)

lemma refusing_reports: "reports_db_errors_only refusing_server"
  by (auto simp: reports_db_errors_only_def refusing_server_def split: db_call.splits)

lemma open_world_connection: "connection open_world = Some fresh_connection"
  by (simp add: open_world_def)



text \<open>
  Claim C8. On a connected manager, with a driver that reports its failures as
  \<^verbatim>\<open>mysql.connector.Error\<close>, \<^verbatim>\<open>insert_data\<close> returns. The calls it makes are an initial
  part of: open a cursor, execute the insert statement once for each row in file order,
  commit, close the cursor. A commit is among them only when every row has been executed
  before it. Either all calls returned and the success entry is logged, or the last call
  made is the one that raised, its error is logged, and nothing is sent after it.
\<close>

theorem insert_data_transaction:
  assumes conn: "connection w = Some k" and db: "reports_db_errors_only srv"
  shows "\<exists>j m. j \<le> length (rows df) + 3 \<and>
      insert_data srv n df w =
        Inr (w\<lparr>connection := Some (k\<lparr>history := history k @ take j (insert_plan n df)\<rparr>),
               log := log w @ [m]\<rparr>) \<and>
      (Commit \<in> set (take j (insert_plan n df)) \<longrightarrow> length (rows df) + 2 \<le> j) \<and>
      ((m = (INFO, DataInserted n) \<and> j = length (rows df) + 3 \<and>
          (\<forall>i < length (rows df) + 3.
              raises srv (history k @ take i (insert_plan n df)) (insert_plan n df ! i) = None)) \<or>
       (\<exists>e. m = (ERROR, InsertError n e) \<and> 0 < j \<and>
          raises srv (history k @ take (j - 1) (insert_plan n df)) (insert_plan n df ! (j - 1))
            = Some (MySQLError e) \<and>
          (\<forall>i < j - 1. raises srv (history k @ take i (insert_plan n df)) (insert_plan n df ! i) = None)))"
  using planned_outcome[OF db, of "insert_plan n df" "DataInserted n" "InsertError n" w k]
    insert_data_run[OF conn, of srv n df] commit_position[of _ n df]
  by (simp add: insert_plan_length)

text \<open>
  The hypotheses of C8 hold for a server that refuses every statement: the insert is
  logged as failed.
\<close>

theorem insert_data_transaction_witness:
  "connection open_world = Some fresh_connection \<and> reports_db_errors_only refusing_server \<and>
   (\<exists>j e. insert_data refusing_server ''order'' orders_frame open_world =
        Inr (open_world\<lparr>connection := Some (fresh_connection\<lparr>history := history fresh_connection
                                   @ take j (insert_plan ''order'' orders_frame)\<rparr>),
               log := log open_world @ [(ERROR, InsertError ''order'' e)]\<rparr>) \<and>
      (Commit \<in> set (take j (insert_plan ''order'' orders_frame)) \<longrightarrow> length (rows orders_frame) + 2 \<le> j))"
proof -
  have nr: "raises refusing_server
        (history fresh_connection @ take 1 (insert_plan ''order'' orders_frame))
        (insert_plan ''order'' orders_frame ! 1) \<noteq> None"
    by (simp add: refusing_server_def insert_plan_def orders_frame_def)
  from insert_data_transaction[OF open_world_connection refusing_reports, where n = "''order''" and df = orders_frame]
  obtain j m where o:
    "insert_data refusing_server ''order'' orders_frame open_world =
        Inr (open_world\<lparr>connection := Some (fresh_connection\<lparr>history := history fresh_connection
                                   @ take j (insert_plan ''order'' orders_frame)\<rparr>),
               log := log open_world @ [m]\<rparr>)"
    "Commit \<in> set (take j (insert_plan ''order'' orders_frame)) \<longrightarrow> length (rows orders_frame) + 2 \<le> j"
    "(m = (INFO, DataInserted ''order'') \<and>
          (\<forall>i < length (rows orders_frame) + 3.
              raises refusing_server (history fresh_connection @ take i (insert_plan ''order'' orders_frame))
                (insert_plan ''order'' orders_frame ! i) = None)) \<or>
       (\<exists>e. m = (ERROR, InsertError ''order'' e))"
    by blast
  have "\<not> (\<forall>i < length (rows orders_frame) + 3.
              raises refusing_server (history fresh_connection @ take i (insert_plan ''order'' orders_frame))
                (insert_plan ''order'' orders_frame ! i) = None)"
    using nr by (metis less_add_same_cancel2 one_less_numeral_iff semiring_norm(77) trans_less_add2)
  with o(3) obtain e where "m = (ERROR, InsertError ''order'' e)" by blast
  with o(1,2) open_world_connection refusing_reports show ?thesis by blast
qed

text \<open>
  Claim C9. \<^verbatim>\<open>close\<close> on a manager without a connection returns and changes nothing; a
  \<^verbatim>\<open>close\<close> after a \<^verbatim>\<open>close\<close> that returned changes nothing either; on a connected manager it
  calls the driver's \<^verbatim>\<open>close()\<close> and logs it. When the connect fails with the driver's error,
  \<^verbatim>\<open>main\<close> ends in the state the constructor left: no connection, the connect error as the
  last log entry, no file loaded and no table operation.
\<close>

theorem close_idempotent:
  "(connection w = None \<longrightarrow> close srv w = Inr w) \<and>
   (close srv w = Inr w1 \<longrightarrow> close srv w1 = Inr w1) \<and>
   (connection w = Some k \<and> is_connected srv k \<and> raises srv (history k) Close = None \<longrightarrow>
      close srv w = Inr (w\<lparr>connection := Some (k\<lparr>is_open := False, history := history k @ [Close]\<rparr>),
                           log := log w @ [(INFO, ConnectionClosed)]\<rparr>)) \<and>
   (connect srv st = Some (MySQLError e) \<longrightarrow>
      (\<exists>fls w1. get_files fs dir ''csv'' w = Inr (fls, w1) \<and>
         main srv fs st dir w = Inr (w1\<lparr>connection := None, log := log w1 @ [(ERROR, ConnectError e)]\<rparr>)))"
proof (intro conjI impI)
  show "connection w = None \<Longrightarrow> close srv w = Inr w" by (simp add: close_def)
  show "close srv w = Inr w1 \<Longrightarrow> close srv w1 = Inr w1"
    by (auto simp: close_def is_connected_def call_def logger_def set_connection_def
        split: option.splits if_splits)
  show "connection w = Some k \<and> is_connected srv k \<and> raises srv (history k) Close = None \<Longrightarrow>
      close srv w = Inr (w\<lparr>connection := Some (k\<lparr>is_open := False, history := history k @ [Close]\<rparr>),
                           log := log w @ [(INFO, ConnectionClosed)]\<rparr>)"
    by (simp add: close_def call_def logger_def set_connection_def)
  assume c: "connect srv st = Some (MySQLError e)"
  obtain fls w1 where g: "get_files fs dir ''csv'' w = Inr (fls, w1)"
    by (cases "get_files_body fs dir ''csv'' w") (auto simp: get_files_def)
  have "main srv fs st dir w = Inr (w1\<lparr>connection := None, log := log w1 @ [(ERROR, ConnectError e)]\<rparr>)"
    using g c by (simp add: main_def init_manager_def logger_def)
  with g show "\<exists>fls w1. get_files fs dir ''csv'' w = Inr (fls, w1) \<and>
         main srv fs st dir w = Inr (w1\<lparr>connection := None, log := log w1 @ [(ERROR, ConnectError e)]\<rparr>)"
    by blast
qed

text \<open>
  Each case of C9 at a concrete manager.
\<close>

theorem close_idempotent_witness:
  "connection open_world = Some fresh_connection \<and> is_connected quiet_server fresh_connection \<and>
   raises quiet_server (history fresh_connection) Close = None \<and>
   close quiet_server open_world =
     Inr (open_world\<lparr>connection := Some (fresh_connection\<lparr>is_open := False,
                                                         history := history fresh_connection @ [Close]\<rparr>),
                      log := log open_world @ [(INFO, ConnectionClosed)]\<rparr>) \<and>
   close quiet_server
     (open_world\<lparr>connection := Some (fresh_connection\<lparr>is_open := False,
                                                     history := history fresh_connection @ [Close]\<rparr>),
                  log := log open_world @ [(INFO, ConnectionClosed)]\<rparr>) =
     Inr (open_world\<lparr>connection := Some (fresh_connection\<lparr>is_open := False,
                                                         history := history fresh_connection @ [Close]\<rparr>),
                      log := log open_world @ [(INFO, ConnectionClosed)]\<rparr>) \<and>
   connection (open_world\<lparr>connection := None\<rparr>) = None \<and>
   close quiet_server (open_world\<lparr>connection := None\<rparr>) = Inr (open_world\<lparr>connection := None\<rparr>) \<and>
   connect refusing_server () = Some (MySQLError ''access denied'') \<and>
   (\<exists>fls w1. get_files scenario_files ''data'' ''csv'' open_world = Inr (fls, w1) \<and>
      main refusing_server scenario_files () ''data'' open_world =
        Inr (w1\<lparr>connection := None, log := log w1 @ [(ERROR, ConnectError ''access denied'')]\<rparr>))"
proof -
  let ?w1 = "open_world\<lparr>connection := Some (fresh_connection\<lparr>is_open := False,
                                                         history := history fresh_connection @ [Close]\<rparr>),
                      log := log open_world @ [(INFO, ConnectionClosed)]\<rparr>"
  have a: "connection open_world = Some fresh_connection \<and> is_connected quiet_server fresh_connection \<and>
           raises quiet_server (history fresh_connection) Close = None"
    by (simp add: open_world_def is_connected_def quiet_server_def fresh_connection_def)
  have n: "connection (open_world\<lparr>connection := None\<rparr>) = None" by simp
  have c: "connect refusing_server () = Some (MySQLError ''access denied'')"
    by (simp add: refusing_server_def)
  note t1 = close_idempotent[where w = open_world and srv = quiet_server and ?w1.0 = ?w1 and k = fresh_connection and st = "()" and e = "''access denied''" and fs = scenario_files and dir = "''data''"]
  note t2 = close_idempotent[where w = "open_world\<lparr>connection := None\<rparr>" and srv = quiet_server and ?w1.0 = ?w1 and k = fresh_connection and st = "()" and e = "''access denied''" and fs = scenario_files and dir = "''data''"]
  note t3 = close_idempotent[where w = open_world and srv = refusing_server and ?w1.0 = ?w1 and k = fresh_connection and st = "()" and e = "''access denied''" and fs = scenario_files and dir = "''data''"]
  from t1 a have first: "close quiet_server open_world = Inr ?w1" by blast
  with t1 have second: "close quiet_server ?w1 = Inr ?w1" by blast
  from t2 n have third: "close quiet_server (open_world\<lparr>connection := None\<rparr>) = Inr (open_world\<lparr>connection := None\<rparr>)"
    by blast
  from t3 c have fourth: "\<exists>fls w1. get_files scenario_files ''data'' ''csv'' open_world = Inr (fls, w1) \<and>
      main refusing_server scenario_files () ''data'' open_world =
        Inr (w1\<lparr>connection := None, log := log w1 @ [(ERROR, ConnectError ''access denied'')]\<rparr>)"
    by blast
  show ?thesis using a first second n third c fourth by blast
qed

section \<open>The loader\<close>

text \<open>
  Claim C5. \<^verbatim>\<open>load_csv\<close> returns the frame the reader gives; it returns \<^verbatim>\<open>None\<close>, with an
  error entry in the log, exactly when the reader raises \<^verbatim>\<open>FileNotFoundError\<close>,
  \<^verbatim>\<open>EmptyDataError\<close> or \<^verbatim>\<open>ParserError\<close>; any other exception of the reader leaves
  \<^verbatim>\<open>load_csv\<close> unchanged.
\<close>

theorem load_csv_closed_enumeration:
  "(read_csv fs p = Inr df \<longrightarrow> load_csv fs p w = Inr (Some df, logger INFO (Loaded p) w)) \<and>
   ((\<exists>w'. load_csv fs p w = Inr (None, w')) \<longleftrightarrow>
      read_csv fs p = Inl FileNotFoundError \<or> read_csv fs p = Inl EmptyDataError
        \<or> read_csv fs p = Inl ParserError) \<and>
   (read_csv fs p = Inl FileNotFoundError \<longrightarrow>
      load_csv fs p w = Inr (None, logger ERROR (NotFound p) w)) \<and>
   (read_csv fs p = Inl EmptyDataError \<longrightarrow>
      load_csv fs p w = Inr (None, logger ERROR (EmptyFile p) w)) \<and>
   (read_csv fs p = Inl ParserError \<longrightarrow>
      load_csv fs p w = Inr (None, logger ERROR (ParseError p) w)) \<and>
   (read_csv fs p = Inl x \<and> x \<noteq> FileNotFoundError \<and> x \<noteq> EmptyDataError \<and> x \<noteq> ParserError \<longrightarrow>
      load_csv fs p w = Inl x)"
  by (auto simp: load_csv_def split: sum.splits exn.splits)

text \<open>
  The cases of C5 at an empty file, a parsed file and a file that may not be read.
\<close>

theorem load_csv_closed_enumeration_witness:
  "read_csv scenario_files ''users_202401.csv'' = Inl EmptyDataError \<and>
   load_csv scenario_files ''users_202401.csv'' open_world
     = Inr (None, logger ERROR (EmptyFile ''users_202401.csv'') open_world) \<and>
   read_csv scenario_files ''orders_202401.csv'' = Inr orders_frame \<and>
   load_csv scenario_files ''orders_202401.csv'' open_world
     = Inr (Some orders_frame, logger INFO (Loaded ''orders_202401.csv'') open_world) \<and>
   read_csv (scenario_files\<lparr>read_csv := (\<lambda>p. Inl (OtherException ''PermissionError''))\<rparr>) ''x.csv''
     = Inl (OtherException ''PermissionError'') \<and>
   load_csv (scenario_files\<lparr>read_csv := (\<lambda>p. Inl (OtherException ''PermissionError''))\<rparr>) ''x.csv'' open_world
     = Inl (OtherException ''PermissionError'')"
proof -
  have u: "read_csv scenario_files ''users_202401.csv'' = Inl EmptyDataError"
    by (simp add: scenario_files_def)
  have o: "read_csv scenario_files ''orders_202401.csv'' = Inr orders_frame"
    by (simp add: scenario_files_def)
  let ?fs = "scenario_files\<lparr>read_csv := (\<lambda>p. Inl (OtherException ''PermissionError''))\<rparr>"
  have x: "read_csv ?fs ''x.csv'' = Inl (OtherException ''PermissionError'')" by simp
  show ?thesis
    using load_csv_closed_enumeration[where fs = scenario_files and p = "''users_202401.csv''" and df = orders_frame and w = open_world and x = EmptyDataError]
      load_csv_closed_enumeration[where fs = scenario_files and p = "''orders_202401.csv''" and df = orders_frame and w = open_world and x = EmptyDataError]
      load_csv_closed_enumeration[where fs = ?fs and p = "''x.csv''" and df = orders_frame and w = open_world and x = "OtherException ''PermissionError''"]
      u o x
    by simp
qed








lemma load_one_parsed:
  assumes conn: "connection w = Some k" and db: "reports_db_errors_only srv"
    and rd: "read_csv fs f = Inr df"
  shows "\<exists>k' m1 m2. load_csv_to_db srv fs (f # rest) w =
           load_csv_to_db srv fs rest
             (w\<lparr>connection := Some k', log := log w @ [(INFO, Loaded f), m1, m2]\<rparr>) \<and>
         is_create_entry (table_name_of f) m1 \<and> is_insert_entry (table_name_of f) m2 \<and>
         is_open k' = is_open k"
proof -
  let ?n = "table_name_of f"
  let ?w1 = "logger INFO (Loaded f) w"
  have l: "load_csv fs f w = Inr (Some df, ?w1)" using rd by (simp add: load_csv_def)
  have c1: "connection ?w1 = Some k" using conn by (simp add: logger_def)
  from create_table_entry[OF c1 db, of ?n "generate_columns_definition df"]
  obtain j1 m1 where ct: "create_table srv ?n (generate_columns_definition df) ?w1 =
        Inr (?w1\<lparr>connection := Some (k\<lparr>history := history k @ take j1 (create_plan ?n (generate_columns_definition df))\<rparr>),
               log := log ?w1 @ [m1]\<rparr>)" "is_create_entry ?n m1"
    by blast
  let ?k2 = "k\<lparr>history := history k @ take j1 (create_plan ?n (generate_columns_definition df))\<rparr>"
  let ?w2 = "?w1\<lparr>connection := Some ?k2, log := log ?w1 @ [m1]\<rparr>"
  have c2: "connection ?w2 = Some ?k2" by simp
  from insert_data_outcome[OF c2 db, of ?n df]
  obtain j2 m2 where ins: "insert_data srv ?n df ?w2 =
        Inr (?w2\<lparr>connection := Some (?k2\<lparr>history := history ?k2 @ take j2 (insert_plan ?n df)\<rparr>),
               log := log ?w2 @ [m2]\<rparr>)" "is_insert_entry ?n m2"
    by blast
  let ?k3 = "?k2\<lparr>history := history ?k2 @ take j2 (insert_plan ?n df)\<rparr>"
  have "load_csv_to_db srv fs (f # rest) w =
          load_csv_to_db srv fs rest (w\<lparr>connection := Some ?k3, log := log w @ [(INFO, Loaded f), m1, m2]\<rparr>)"
    using l ct(1) ins(1) by (simp add: logger_def Let_def)
  moreover have "is_open ?k3 = is_open k" by simp
  ultimately show ?thesis using ct(2) ins(2) by blast
qed

lemma load_one_skipped:
  assumes "read_csv fs f = Inl x" "x = FileNotFoundError \<or> x = EmptyDataError \<or> x = ParserError"
  shows "load_csv_to_db srv fs (f # rest) w =
           load_csv_to_db srv fs rest (w\<lparr>log := log w @ file_log fs f\<rparr>)"
  using assms by (auto simp: load_csv_def file_log_def logger_def)

lemma load_csv_to_db_isolated:
  assumes db: "reports_db_errors_only srv"
  shows "connection w = Some k \<Longrightarrow> \<forall>f \<in> set fls. handled (read_csv fs f) \<Longrightarrow>
     \<exists>k' chunks. load_csv_to_db srv fs fls w =
                    Inr (w\<lparr>connection := Some k', log := log w @ concat chunks\<rparr>) \<and>
                  list_all2 (file_entries fs) fls chunks \<and> is_open k' = is_open k"
proof (induction fls arbitrary: w k)
  case Nil
  then show ?case by (intro exI[of _ k] exI[of _ "[]"]) simp
next
  case (Cons f rest)
  from Cons.prems(2) have hf: "handled (read_csv fs f)" and hr: "\<forall>f \<in> set rest. handled (read_csv fs f)"
    by auto
  show ?case
  proof (cases "read_csv fs f")
    case (Inr df)
    from load_one_parsed[OF Cons.prems(1) db Inr, of rest] obtain k1 m1 m2 where
      st: "load_csv_to_db srv fs (f # rest) w =
           load_csv_to_db srv fs rest
             (w\<lparr>connection := Some k1, log := log w @ [(INFO, Loaded f), m1, m2]\<rparr>)"
      and e: "is_create_entry (table_name_of f) m1" "is_insert_entry (table_name_of f) m2"
      and o: "is_open k1 = is_open k" by blast
    let ?w1 = "w\<lparr>connection := Some k1, log := log w @ [(INFO, Loaded f), m1, m2]\<rparr>"
    have c: "connection ?w1 = Some k1" by simp
    from Cons.IH[OF c hr] obtain k' chunks where
      r: "load_csv_to_db srv fs rest ?w1 = Inr (?w1\<lparr>connection := Some k', log := log ?w1 @ concat chunks\<rparr>)"
      "list_all2 (file_entries fs) rest chunks" "is_open k' = is_open k1" by blast
    have fe: "file_entries fs f [(INFO, Loaded f), m1, m2]"
      using Inr e by (simp add: file_entries_def)
    show ?thesis
      using st r fe o
      by (intro exI[of _ k'] exI[of _ "[(INFO, Loaded f), m1, m2] # chunks"]) simp
  next
    case (Inl x)
    with hf have x: "x = FileNotFoundError \<or> x = EmptyDataError \<or> x = ParserError"
      by (simp add: handled_def)
    let ?w1 = "w\<lparr>log := log w @ file_log fs f\<rparr>"
    have c: "connection ?w1 = Some k" using Cons.prems(1) by simp
    from Cons.IH[OF c hr] obtain k' chunks where
      r: "load_csv_to_db srv fs rest ?w1 = Inr (?w1\<lparr>connection := Some k', log := log ?w1 @ concat chunks\<rparr>)"
      "list_all2 (file_entries fs) rest chunks" "is_open k' = is_open k" by blast
    have fe: "file_entries fs f (file_log fs f)"
      using Inl x by (auto simp: file_entries_def file_log_def)
    show ?thesis
      using load_one_skipped[OF Inl x, of srv rest w] r fe
      by (intro exI[of _ k'] exI[of _ "file_log fs f # chunks"]) simp
  qed
qed


lemma parsed_entries:
  assumes "read_csv fs f = Inr df" "file_entries fs f es"
  shows "filter is_skip_entry es = [] \<and> named_tables es = [table_name_of f]"
proof -
  from assms obtain a b c where es: "es = [a, b, c]" "a = (INFO, Loaded f)"
    "is_create_entry (table_name_of f) b" "is_insert_entry (table_name_of f) c"
    by (auto simp: file_entries_def split: list.splits)
  from es(3) have b: "\<not> is_skip_entry b \<and> entry_table b = [table_name_of f]"
    by (cases "(table_name_of f, b)" rule: is_create_entry.cases) auto
  from es(4) have c: "\<not> is_skip_entry c \<and> entry_table c = []"
    by (cases "(table_name_of f, c)" rule: is_insert_entry.cases) auto
  show ?thesis using es(1,2) b c by (simp add: named_tables_def)
qed

lemma all_parsed_entries:
  "list_all2 (file_entries fs) fls chunks \<Longrightarrow> \<forall>f \<in> set fls. \<exists>df. read_csv fs f = Inr df \<Longrightarrow>
   filter is_skip_entry (concat chunks) = [] \<and> named_tables (concat chunks) = map table_name_of fls"
proof (induction rule: list_all2_induct)
  case Nil
  then show ?case by (simp add: named_tables_def)
next
  case (Cons f fls c chunks)
  from Cons.prems obtain df where "read_csv fs f = Inr df" by auto
  from parsed_entries[OF this Cons.hyps(1)] Cons.IH Cons.prems
  show ?case by (simp add: named_tables_def)
qed


lemma table_name_short: "length (stem f) \<le> 8 \<Longrightarrow> table_name_of f = []"
  by (simp add: table_name_of_def strip8_def)

lemma strip8_split:
  "8 \<le> length s \<Longrightarrow> \<exists>suf. length suf = 8 \<and> s = strip8 s @ suf"
  by (intro exI[of _ "drop (length s - 8) s"]) (simp add: strip8_def)







text \<open>
  Claim C10. A file whose stem has at most eight characters gets the empty table name,
  and when it parses the loader goes on to \<^verbatim>\<open>create_table\<close> and \<^verbatim>\<open>insert_data\<close> with that
  empty name.
\<close>

theorem short_stem_empty_table_name:
  assumes short: "length (stem f) \<le> 8" and rd: "read_csv fs f = Inr df"
  shows "table_name_of f = [] \<and>
         load_csv_to_db srv fs [f] w =
           (case create_table srv [] (generate_columns_definition df) (logger INFO (Loaded f) w) of
              Inl x \<Rightarrow> Inl x
            | Inr w2 \<Rightarrow> insert_data srv [] df w2) \<and>
         (connection w = Some k \<and> reports_db_errors_only srv \<longrightarrow>
            (\<exists>k' m1 m2. load_csv_to_db srv fs [f] w =
                Inr (w\<lparr>connection := Some k', log := log w @ [(INFO, Loaded f), m1, m2]\<rparr>) \<and>
              is_create_entry [] m1 \<and> is_insert_entry [] m2))"
proof (intro conjI impI)
  show n: "table_name_of f = []" by (rule table_name_short[OF short])
  show "load_csv_to_db srv fs [f] w =
           (case create_table srv [] (generate_columns_definition df) (logger INFO (Loaded f) w) of
              Inl x \<Rightarrow> Inl x
            | Inr w2 \<Rightarrow> insert_data srv [] df w2)"
    using rd n by (simp add: load_csv_def Let_def split: sum.splits)
  assume a: "connection w = Some k \<and> reports_db_errors_only srv"
  from load_one_parsed[OF conjunct1[OF a] conjunct2[OF a] rd, of "[]"] obtain k' m1 m2 where
    "load_csv_to_db srv fs [f] w =
       load_csv_to_db srv fs [] (w\<lparr>connection := Some k', log := log w @ [(INFO, Loaded f), m1, m2]\<rparr>)"
    "is_create_entry (table_name_of f) m1" "is_insert_entry (table_name_of f) m2"
    by blast
  then show "\<exists>k' m1 m2. load_csv_to_db srv fs [f] w =
                Inr (w\<lparr>connection := Some k', log := log w @ [(INFO, Loaded f), m1, m2]\<rparr>) \<and>
              is_create_entry [] m1 \<and> is_insert_entry [] m2"
    unfolding n by (intro exI[of _ k'] exI[of _ m1] exI[of _ m2]) simp
qed

text \<open>
  The file \<^verbatim>\<open>a.csv\<close>.
\<close>

theorem short_stem_empty_table_name_witness:
  "length (stem ''a.csv'') \<le> 8 \<and>
   read_csv (scenario_files\<lparr>read_csv := (\<lambda>p. Inr orders_frame)\<rparr>) ''a.csv'' = Inr orders_frame \<and>
   table_name_of ''a.csv'' = [] \<and>
   connection open_world = Some fresh_connection \<and> reports_db_errors_only quiet_server \<and>
   (\<exists>k' m1 m2. load_csv_to_db quiet_server (scenario_files\<lparr>read_csv := (\<lambda>p. Inr orders_frame)\<rparr>)
                   [''a.csv''] open_world =
        Inr (open_world\<lparr>connection := Some k', log := log open_world @ [(INFO, Loaded ''a.csv''), m1, m2]\<rparr>) \<and>
      is_create_entry [] m1 \<and> is_insert_entry [] m2)"
proof -
  have s: "length (stem ''a.csv'') \<le> 8" by code_simp
  have r: "read_csv (scenario_files\<lparr>read_csv := (\<lambda>p. Inr orders_frame)\<rparr>) ''a.csv'' = Inr orders_frame"
    by simp
  from short_stem_empty_table_name[OF s r, where srv = quiet_server and w = open_world and k = fresh_connection]
    s r open_world_connection quiet_reports
  show ?thesis by blast
qed

text \<open>
  Claim C2, as the code has it. The table name depends on the last component of the path
  only; it is the stem without its last eight characters when the stem has at least
  eight, and empty when it has fewer. A run over files that all parse names the tables of
  its files in order, so two orders of the same files name the same tables.
\<close>

theorem table_name_from_file_name:
  assumes conn: "connection w = Some k" and db: "reports_db_errors_only srv"
    and parsed: "\<forall>f \<in> set fls. \<exists>df. read_csv fs f = Inr df"
    and perm: "mset fls' = mset fls"
  shows "(path_name p = path_name q \<longrightarrow> table_name_of p = table_name_of q) \<and>
         table_name_of p = take (length (stem p) - 8) (stem p) \<and>
         (8 \<le> length (stem p) \<longrightarrow> (\<exists>suf. length suf = 8 \<and> stem p = table_name_of p @ suf)) \<and>
         (length (stem p) < 8 \<longrightarrow> table_name_of p = []) \<and>
         (\<exists>w1 w2. load_csv_to_db srv fs fls w = Inr w1 \<and> load_csv_to_db srv fs fls' w = Inr w2 \<and>
            named_tables (log w1) = named_tables (log w) @ map table_name_of fls \<and>
            named_tables (log w2) = named_tables (log w) @ map table_name_of fls' \<and>
            mset (map table_name_of fls') = mset (map table_name_of fls))"
proof (intro conjI impI)
  show "path_name p = path_name q \<Longrightarrow> table_name_of p = table_name_of q"
    by (simp add: table_name_of_def stem_def)
  show "table_name_of p = take (length (stem p) - 8) (stem p)"
    by (simp add: table_name_of_def strip8_def)
  show "8 \<le> length (stem p) \<Longrightarrow> \<exists>suf. length suf = 8 \<and> stem p = table_name_of p @ suf"
    unfolding table_name_of_def by (rule strip8_split)
  show "length (stem p) < 8 \<Longrightarrow> table_name_of p = []"
    by (simp add: table_name_short)
  have run: "\<exists>w1. load_csv_to_db srv fs l w = Inr w1 \<and>
               named_tables (log w1) = named_tables (log w) @ map table_name_of l"
    if p: "\<forall>f \<in> set l. \<exists>df. read_csv fs f = Inr df" for l
  proof -
    from p have h: "\<forall>f \<in> set l. handled (read_csv fs f)" by (auto simp: handled_def)
    from load_csv_to_db_isolated[OF db conn h] obtain k' chunks where
      r: "load_csv_to_db srv fs l w = Inr (w\<lparr>connection := Some k', log := log w @ concat chunks\<rparr>)"
      and l: "list_all2 (file_entries fs) l chunks" by blast
    from all_parsed_entries[OF l p] have "named_tables (concat chunks) = map table_name_of l" by simp
    then have "named_tables (log (w\<lparr>connection := Some k', log := log w @ concat chunks\<rparr>))
        = named_tables (log w) @ map table_name_of l" by (simp add: named_tables_def)
    with r show ?thesis by blast
  qed
  from perm have "set fls' = set fls" by (rule mset_eq_setD)
  with parsed have parsed': "\<forall>f \<in> set fls'. \<exists>df. read_csv fs f = Inr df" by simp
  from perm have "mset (map table_name_of fls') = mset (map table_name_of fls)" by simp
  with run[OF parsed] run[OF parsed']
  show "\<exists>w1 w2. load_csv_to_db srv fs fls w = Inr w1 \<and> load_csv_to_db srv fs fls' w = Inr w2 \<and>
            named_tables (log w1) = named_tables (log w) @ map table_name_of fls \<and>
            named_tables (log w2) = named_tables (log w) @ map table_name_of fls' \<and>
            mset (map table_name_of fls') = mset (map table_name_of fls)"
    by blast
qed

text \<open>
  Two files in both orders.
\<close>

theorem table_name_from_file_name_witness:
  "connection open_world = Some fresh_connection \<and> reports_db_errors_only quiet_server \<and>
   read_csv (scenario_files\<lparr>read_csv := (\<lambda>p. Inr orders_frame)\<rparr>) ''orders_dataset.csv'' = Inr orders_frame \<and>
   read_csv (scenario_files\<lparr>read_csv := (\<lambda>p. Inr orders_frame)\<rparr>) ''users_dataset.csv'' = Inr orders_frame \<and>
   mset [''users_dataset.csv'', ''orders_dataset.csv''] = mset [''orders_dataset.csv'', ''users_dataset.csv''] \<and>
   8 \<le> length (stem ''data/orders_dataset.csv'') \<and>
   (\<exists>suf. length suf = 8 \<and> stem ''data/orders_dataset.csv'' = table_name_of ''data/orders_dataset.csv'' @ suf) \<and>
   (\<exists>w1 w2.
      load_csv_to_db quiet_server (scenario_files\<lparr>read_csv := (\<lambda>p. Inr orders_frame)\<rparr>)
          [''orders_dataset.csv'', ''users_dataset.csv''] open_world = Inr w1 \<and>
      load_csv_to_db quiet_server (scenario_files\<lparr>read_csv := (\<lambda>p. Inr orders_frame)\<rparr>)
          [''users_dataset.csv'', ''orders_dataset.csv''] open_world = Inr w2 \<and>
      named_tables (log w1) = [''orders'', ''users''] \<and>
      named_tables (log w2) = [''users'', ''orders''])"
proof -
  let ?fs = "scenario_files\<lparr>read_csv := (\<lambda>p. Inr orders_frame)\<rparr>"
  have p: "\<forall>f \<in> set [''orders_dataset.csv'', ''users_dataset.csv'']. \<exists>df. read_csv ?fs f = Inr df"
    by simp
  have m: "mset [''users_dataset.csv'', ''orders_dataset.csv''] = mset [''orders_dataset.csv'', ''users_dataset.csv'']"
    by (simp add: add.commute)
  have l: "8 \<le> length (stem ''data/orders_dataset.csv'')" by code_simp
  have n1: "table_name_of ''orders_dataset.csv'' = ''orders''" by code_simp
  have n2: "table_name_of ''users_dataset.csv'' = ''users''" by code_simp
  have e: "named_tables (log open_world) = []" by (simp add: open_world_def named_tables_def)
  note t = table_name_from_file_name[OF open_world_connection quiet_reports p m,
      where p = "''data/orders_dataset.csv''" and q = "''data/orders_dataset.csv''"]
  from t l have s: "\<exists>suf. length suf = 8 \<and> stem ''data/orders_dataset.csv'' = table_name_of ''data/orders_dataset.csv'' @ suf"
    by blast
  from t have "\<exists>w1 w2.
      load_csv_to_db quiet_server ?fs [''orders_dataset.csv'', ''users_dataset.csv''] open_world = Inr w1 \<and>
      load_csv_to_db quiet_server ?fs [''users_dataset.csv'', ''orders_dataset.csv''] open_world = Inr w2 \<and>
      named_tables (log w1) = named_tables (log open_world)
          @ map table_name_of [''orders_dataset.csv'', ''users_dataset.csv''] \<and>
      named_tables (log w2) = named_tables (log open_world)
          @ map table_name_of [''users_dataset.csv'', ''orders_dataset.csv'']"
    by blast
  then have r: "\<exists>w1 w2.
      load_csv_to_db quiet_server ?fs [''orders_dataset.csv'', ''users_dataset.csv''] open_world = Inr w1 \<and>
      load_csv_to_db quiet_server ?fs [''users_dataset.csv'', ''orders_dataset.csv''] open_world = Inr w2 \<and>
      named_tables (log w1) = [''orders'', ''users''] \<and>
      named_tables (log w2) = [''users'', ''orders'']"
    unfolding e by (simp only: list.map n1 n2 append_Nil)
  have r1: "read_csv ?fs ''orders_dataset.csv'' = Inr orders_frame" by simp
  have r2: "read_csv ?fs ''users_dataset.csv'' = Inr orders_frame" by simp
  show ?thesis using open_world_connection quiet_reports r1 r2 m l s r by blast
qed

text \<open>
  C2 as stated fails for a short stem: \<^verbatim>\<open>a.csv\<close> loses one character, not eight.
\<close>

theorem short_stem_loses_fewer_than_eight:
  "stem ''a.csv'' = ''a'' \<and> table_name_of ''a.csv'' = [] \<and>
   length (stem ''a.csv'') - length (table_name_of ''a.csv'') = 1"
  by code_simp




section \<open>File discovery\<close>

text \<open>
  Claim C3. \<^verbatim>\<open>get_files\<close> tests the name against the extension without a dot: in a folder
  with the entries \<^verbatim>\<open>abccsv\<close>, \<^verbatim>\<open>a.csv\<close> and \<^verbatim>\<open>b.txt\<close> it returns \<^verbatim>\<open>abccsv\<close> too, a
  name that does not end with \<^verbatim>\<open>.csv\<close>.
\<close>

theorem get_files_matches_without_dot:
  "get_files dotless_listing ''data'' ''csv'' open_world =
     Inr ([''data/abccsv'', ''data/a.csv''],
          \<lparr>connection = Some \<lparr>is_open = True, history = []\<rparr>,
           log = [(INFO, Found 2 ''csv'' ''data'')]\<rparr>)"
  by code_simp

end
